theory Spec2Isabelle
  imports Main
begin

section \<open>Data model of the manifest loader\<close>

text \<open>
  The development embeds the functions of \<^verbatim>\<open>core/dbt/parser/manifest.py\<close> and
  \<^verbatim>\<open>core/dbt/task/test.py\<close> that decide cache validity, per-file reuse,
  reference resolution and test selection. Python objects are records, exceptions are
  values of the type \<open>error\<close> (a function that may raise returns \<open>error + 'a\<close>),
  dictionaries that are iterated are association lists in iteration order, dictionaries
  that are only looked up are maps. A leading underscore of a Python name is dropped
  (\<^verbatim>\<open>_get_file\<close> is \<open>get_file\<close>), and the receiver \<^verbatim>\<open>self\<close> is the first
  argument.
\<close>

type_synonym UniqueId = string

text \<open>A \<^verbatim>\<open>FileHash\<close> is compared by value; it is represented by its digest.\<close>

type_synonym FileHash = string

datatype NodeType =
  Model | Analysis | Test | Snapshot | Operation | Seed | RPCCall | Documentation
  | Source | Macro | Exposure

text \<open>
  Reading an attribute of an unpickled object may raise \<^verbatim>\<open>AttributeError\<close>
  (the object may come from another version of the tool): \<open>Missing\<close> is the
  attribute that is not there.
\<close>

datatype 'a attr = Missing | Attr 'a

text \<open>
  Messages are kept structured. \<open>TargetNotFoundOrDisabledMsg\<close> holds what
  \<^verbatim>\<open>get_target_not_found_or_disabled_msg(node, target_model_name,
  target_model_package, disabled)\<close> is given: the unique id of the mentioning resource,
  the target name, the target package and the disabled flag; likewise for sources.
  \<open>RefArityMsg n\<close> is \<^verbatim>\<open>'Refs should always be 1 or 2 arguments - got {n}'\<close>.
\<close>

datatype msg =
  TargetNotFoundOrDisabledMsg UniqueId string "string option" bool
  | SourceNotFoundOrDisabledMsg UniqueId string string bool
  | RefArityMsg nat

datatype error =
  AttributeError string
  | OSError string
  | UnpicklingError string
  | InternalException msg
  | CompilationException msg

datatype event = Debug msg | Warning msg

record ManifestStateCheck =
  vars_hash :: FileHash
  profile_hash :: FileHash
  project_hashes :: "(string \<times> FileHash) list"

record FilePath =
  search_key :: string
  project_root :: string

record SourceFile =
  path :: FilePath
  checksum :: FileHash
  contents :: string
  resource_ids :: "UniqueId list"

record FileBlock =
  block_file :: SourceFile

record ParsedNode =
  unique_id :: UniqueId
  resource_type :: NodeType
  package_name :: string
  refs :: "string list list"
  sources :: "(string \<times> string) list"
  depends_on_nodes :: "UniqueId list"
  config_enabled :: bool

record ParsedExposure =
  exposure_unique_id :: UniqueId
  exposure_package_name :: string
  exposure_refs :: "string list list"
  exposure_sources :: "(string \<times> string) list"
  exposure_depends_on_nodes :: "UniqueId list"

record Manifest =
  dbt_version :: "string attr"
  state_check :: "ManifestStateCheck option attr"
  files :: "string \<rightharpoonup> SourceFile"
  nodes :: "UniqueId \<rightharpoonup> ParsedNode"
  exposures :: "UniqueId \<rightharpoonup> ParsedExposure"

section \<open>Cache validity: \<^verbatim>\<open>matching_parse_results\<close>\<close>

text \<open>
  \<^verbatim>\<open>manifest.metadata.dbt_version != __version__\<close> inside
  \<^verbatim>\<open>try ... except AttributeError\<close>: a missing tag and a different tag both
  reject. The tool version \<^verbatim>\<open>__version__\<close> is the parameter \<open>version\<close>.
\<close>

definition version_matches :: "string \<Rightarrow> Manifest \<Rightarrow> bool" where
  "version_matches version saved =
     (case dbt_version saved of
        Missing \<Rightarrow> False
      | Attr v \<Rightarrow> \<not> (v \<noteq> version))"

text \<open>The set comprehension \<^verbatim>\<open>missing_keys\<close>, in the order of the current keys.\<close>

definition missing_keys ::
  "(string \<times> FileHash) list \<Rightarrow> (string \<times> FileHash) list \<Rightarrow> string list" where
  "missing_keys new_hashes old_hashes =
     [k \<leftarrow> map fst new_hashes. map_of old_hashes k = None]"

text \<open>
  The loop over \<^verbatim>\<open>self.manifest.state_check.project_hashes.items()\<close>; the flag
  \<open>valid\<close> is only ever lowered.
\<close>

fun check_project_hashes ::
  "(string \<times> FileHash) list \<Rightarrow> (string \<times> FileHash) list \<Rightarrow> bool \<Rightarrow> bool" where
  "check_project_hashes [] old_hashes valid = valid"
| "check_project_hashes ((key, new_value) # rest) old_hashes valid =
     (case map_of old_hashes key of
        Some old_value \<Rightarrow>
          check_project_hashes rest old_hashes (if new_value \<noteq> old_value then False else valid)
      | None \<Rightarrow> check_project_hashes rest old_hashes valid)"

text \<open>
  \<open>self_manifest\<close> is the loader's current manifest (\<^verbatim>\<open>self.manifest\<close>),
  \<open>saved\<close> the one read from disk (the parameter \<^verbatim>\<open>manifest\<close>). Reading
  \<^verbatim>\<open>state_check\<close> happens outside the inner \<^verbatim>\<open>try\<close>, so a missing
  attribute raises out of the function. The debug log lines are not modelled.
\<close>

definition matching_parse_results :: "string \<Rightarrow> Manifest \<Rightarrow> Manifest \<Rightarrow> error + bool" where
  "matching_parse_results version self_manifest saved =
     (if \<not> version_matches version saved then Inr False
      else
        (case state_check self_manifest of
           Missing \<Rightarrow> Inl (AttributeError ''state_check'')
         | Attr None \<Rightarrow> Inr False
         | Attr (Some new_check) \<Rightarrow>
             (case state_check saved of
                Missing \<Rightarrow> Inl (AttributeError ''state_check'')
              | Attr None \<Rightarrow> Inr False
              | Attr (Some old_check) \<Rightarrow>
                  (let valid = True;
                       valid = (if vars_hash new_check \<noteq> vars_hash old_check
                                then False else valid);
                       valid = (if profile_hash new_check \<noteq> profile_hash old_check
                                then False else valid);
                       valid = (if missing_keys (project_hashes new_check)
                                      (project_hashes old_check) \<noteq> []
                                then False else valid)
                   in Inr (check_project_hashes (project_hashes new_check)
                             (project_hashes old_check) valid)))))"

section \<open>Reading the persisted manifest: \<^verbatim>\<open>read_saved_manifest\<close>\<close>

text \<open>
  The file system as the loader sees it. \<open>stored fs p\<close> is \<open>None\<close> when
  \<^verbatim>\<open>os.path.exists(p)\<close> is false; otherwise it holds what opening the file and
  \<^verbatim>\<open>pickle.load\<close> give: the exception they raise or the object read.
  \<open>mkdir_error\<close> and \<open>write_error\<close> give, for a path, the exception that
  \<^verbatim>\<open>make_directory\<close> and writing the file there raise, if any.
\<close>

record FileSystem =
  stored :: "string \<rightharpoonup> (error + Manifest)"
  mkdir_error :: "string \<rightharpoonup> error"
  write_error :: "string \<rightharpoonup> error"

record RuntimeConfig =
  project_name :: string
  target_path :: string
  config_partial_parse :: "bool option"

definition PARTIAL_PARSE_FILE_NAME :: string where
  "PARTIAL_PARSE_FILE_NAME = ''partial_parse.pickle''"

definition DEFAULT_PARTIAL_PARSE :: bool where
  "DEFAULT_PARTIAL_PARSE = False"

definition path_join :: "string \<Rightarrow> string \<Rightarrow> string" where
  "path_join a b = a @ ''/'' @ b"

text \<open>\<open>flags_partial_parse\<close> is the command-line flag \<^verbatim>\<open>flags.PARTIAL_PARSE\<close>.\<close>

definition partial_parse_enabled :: "bool option \<Rightarrow> RuntimeConfig \<Rightarrow> bool" where
  "partial_parse_enabled flags_partial_parse root_project =
     (case flags_partial_parse of
        Some b \<Rightarrow> b
      | None \<Rightarrow>
          (case config_partial_parse root_project of
             Some b \<Rightarrow> b
           | None \<Rightarrow> DEFAULT_PARTIAL_PARSE))"

text \<open>
  The body of the \<^verbatim>\<open>try\<close> block: \<open>Inr (Some m)\<close> is the
  \<^verbatim>\<open>return manifest\<close> inside it, \<open>Inr None\<close> is leaving the block normally,
  \<open>Inl e\<close> an exception raised inside it.
\<close>

definition load_and_check ::
  "string \<Rightarrow> Manifest \<Rightarrow> (error + Manifest) \<Rightarrow> error + Manifest option" where
  "load_and_check version self_manifest loaded =
     (case loaded of
        Inl e \<Rightarrow> Inl e
      | Inr saved \<Rightarrow>
          (case matching_parse_results version self_manifest saved of
             Inl e \<Rightarrow> Inl e
           | Inr ok \<Rightarrow> if ok then Inr (Some saved) else Inr None))"

definition read_saved_manifest ::
  "bool option \<Rightarrow> string \<Rightarrow> RuntimeConfig \<Rightarrow> Manifest \<Rightarrow> FileSystem
     \<Rightarrow> error + Manifest option" where
  "read_saved_manifest flags_partial_parse version root_project self_manifest fs =
     (if \<not> partial_parse_enabled flags_partial_parse root_project then Inr None
      else
        (let p = path_join (target_path root_project) PARTIAL_PARSE_FILE_NAME in
           (case stored fs p of
              Some loaded \<Rightarrow>
                (case load_and_check version self_manifest loaded of
                   Inl exc \<Rightarrow> Inr None
                 | Inr (Some saved) \<Rightarrow> Inr (Some saved)
                 | Inr None \<Rightarrow> Inr None)
            | None \<Rightarrow> Inr None)))"

section \<open>Per-file reuse: \<^verbatim>\<open>parse_with_cache\<close>\<close>

text \<open>
  A per-kind parser is an external collaborator with the contract
  \<^verbatim>\<open>search\<close>, \<^verbatim>\<open>load_file\<close>, \<^verbatim>\<open>parse_file\<close>;
  \<^verbatim>\<open>parse_file\<close> inserts resources into the shared manifest, so it is a function
  on manifests here.
\<close>

record Parser =
  parser_resource_type :: NodeType
  search :: "FilePath list"
  load_file :: "FilePath \<Rightarrow> SourceFile"
  parse_file :: "FileBlock \<Rightarrow> Manifest \<Rightarrow> Manifest"

text \<open>
  The loader. \<open>load_file_calls\<close> and \<open>parse_file_calls\<close> are not fields of the
  Python class: they record, in order, the calls made to the parsers, so that
  "is invoked" and "is not invoked" can be stated.
\<close>

record ManifestLoader =
  manifest :: Manifest
  old_manifest :: "Manifest option"
  loaded_file_cache :: "string \<rightharpoonup> FileBlock"
  load_file_calls :: "FilePath list"
  parse_file_calls :: "FileBlock list"

text \<open>
  Modelled from the spec: \<^verbatim>\<open>Manifest.has_file\<close> is not in the sources at hand.
  The file is looked up in the cached manifest's file index and the content hashes
  are compared (the comment above the call in \<^verbatim>\<open>_get_cached\<close> says the same).
\<close>

definition has_file :: "Manifest \<Rightarrow> SourceFile \<Rightarrow> bool" where
  "has_file old source_file =
     (case files old (search_key (path source_file)) of
        None \<Rightarrow> False
      | Some old_file \<Rightarrow> checksum old_file = checksum source_file)"

text \<open>
  Modelled from the spec: \<^verbatim>\<open>Manifest.sanitized_update\<close> is not in the sources at
  hand. On an equal hash all resources previously produced from the file are copied
  forward into the current manifest, with the file's record, and reparsing is skipped
  (the result \<open>True\<close>). The resource type is passed as in the call and not used.
\<close>

definition sanitized_update ::
  "Manifest \<Rightarrow> SourceFile \<Rightarrow> Manifest \<Rightarrow> NodeType \<Rightarrow> Manifest \<times> bool" where
  "sanitized_update m source_file old rtype =
     (case files old (search_key (path source_file)) of
        None \<Rightarrow> (m, False)
      | Some old_file \<Rightarrow>
          (m\<lparr>files := (files m)(search_key (path source_file) \<mapsto> old_file),
             nodes := nodes m ++ (nodes old |` set (resource_ids old_file)),
             exposures := exposures m ++ (exposures old |` set (resource_ids old_file))\<rparr>,
           True))"

definition get_cached :: "ManifestLoader \<Rightarrow> FileBlock \<Rightarrow> Parser \<Rightarrow> ManifestLoader \<times> bool" where
  "get_cached self block parser =
     (case old_manifest self of
        None \<Rightarrow> (self, False)
      | Some old \<Rightarrow>
          if has_file old (block_file block)
          then (let (m, r) = sanitized_update (manifest self) (block_file block) old
                               (parser_resource_type parser)
                in (self\<lparr>manifest := m\<rparr>, r))
          else (self, False))"

definition get_file :: "ManifestLoader \<Rightarrow> FilePath \<Rightarrow> Parser \<Rightarrow> ManifestLoader \<times> FileBlock" where
  "get_file self p parser =
     (case loaded_file_cache self (search_key p) of
        Some block \<Rightarrow> (self, block)
      | None \<Rightarrow>
          (let block = \<lparr>block_file = load_file parser p\<rparr>
           in (self\<lparr>loaded_file_cache := (loaded_file_cache self)(search_key p \<mapsto> block),
                     load_file_calls := load_file_calls self @ [p]\<rparr>,
               block)))"

definition parse_with_cache :: "ManifestLoader \<Rightarrow> FilePath \<Rightarrow> Parser \<Rightarrow> ManifestLoader" where
  "parse_with_cache self p parser =
     (let (self1, block) = get_file self p parser;
          (self2, cached) = get_cached self1 block parser
      in if \<not> cached
         then self2\<lparr>manifest := parse_file parser block (manifest self2),
                    parse_file_calls := parse_file_calls self2 @ [block]\<rparr>
         else self2)"

text \<open>
  A project with the parsers instantiated for it: \<open>parsers\<close> are the instances of
  \<^verbatim>\<open>_parser_types\<close> in order, \<open>macro_parser\<close> is \<^verbatim>\<open>MacroParser(project, ...)\<close>.
\<close>

record Project =
  name :: string
  parsers :: "Parser list"
  macro_parser :: Parser

definition parse_paths :: "ManifestLoader \<Rightarrow> Parser \<Rightarrow> ManifestLoader" where
  "parse_paths self parser = fold (\<lambda>p s. parse_with_cache s p parser) (search parser) self"

text \<open>The timing and path-count bookkeeping of \<^verbatim>\<open>parse_project\<close> is not modelled.\<close>

definition parse_project :: "ManifestLoader \<Rightarrow> Project \<Rightarrow> ManifestLoader" where
  "parse_project self project =
     fold (\<lambda>parser s. parse_paths s parser) (parsers project)
       (self\<lparr>loaded_file_cache := Map.empty\<rparr>)"

definition load :: "ManifestLoader \<Rightarrow> Project list \<Rightarrow> ManifestLoader" where
  "load self all_projects = fold (\<lambda>project s. parse_project s project) all_projects self"

text \<open>
  \<^verbatim>\<open>create_macro_manifest\<close> returns the macro manifest built from the loader's
  manifest; the loader after the call is returned here, the macro manifest being a view
  of \<open>manifest\<close>.
\<close>

definition create_macro_manifest :: "ManifestLoader \<Rightarrow> Project list \<Rightarrow> ManifestLoader" where
  "create_macro_manifest self all_projects =
     fold (\<lambda>project s. parse_paths s (macro_parser project)) all_projects self"

section \<open>Persisting the manifest: \<^verbatim>\<open>get_full_manifest\<close>\<close>

definition write_manifest_for_partial_parse ::
  "ManifestLoader \<Rightarrow> RuntimeConfig \<Rightarrow> FileSystem \<Rightarrow> error + FileSystem" where
  "write_manifest_for_partial_parse self root_project fs =
     (let p = path_join (target_path root_project) PARTIAL_PARSE_FILE_NAME in
        (case mkdir_error fs (target_path root_project) of
           Some e \<Rightarrow> Inl e
         | None \<Rightarrow>
             (case write_error fs p of
                Some e \<Rightarrow> Inl e
              | None \<Rightarrow> Inr (fs\<lparr>stored := (stored fs)(p \<mapsto> Inr (manifest self))\<rparr>))))"

text \<open>
  The collaborators of \<^verbatim>\<open>get_full_manifest\<close> that lie outside the loader's own
  code: the dependency loader, the state check built from the configuration files, the
  adapter's macro manifest, the patching and resolution passes of
  \<^verbatim>\<open>update_manifest\<close>, the uniqueness checks of \<^verbatim>\<open>_check_manifest\<close> and
  \<^verbatim>\<open>build_flat_graph\<close>. Each may raise.
\<close>

record Collaborators =
  load_dependencies :: "RuntimeConfig \<Rightarrow> error + Project list"
  build_manifest_state_check :: "RuntimeConfig \<Rightarrow> Project list \<Rightarrow> error + ManifestStateCheck"
  load_macros_from_adapter :: "ManifestLoader \<Rightarrow> error + ManifestLoader"
  update_manifest :: "ManifestLoader \<Rightarrow> error + Manifest"
  check_manifest :: "Manifest \<Rightarrow> RuntimeConfig \<Rightarrow> error + unit"
  build_flat_graph :: "Manifest \<Rightarrow> Manifest"

text \<open>
  \<^verbatim>\<open>ManifestLoader.__init__\<close>: an empty manifest carrying the state check, and the
  persisted manifest read from disk. The metadata of the run carries the tool version.
\<close>

definition init_loader ::
  "Collaborators \<Rightarrow> bool option \<Rightarrow> string \<Rightarrow> RuntimeConfig \<Rightarrow> Project list \<Rightarrow> FileSystem
     \<Rightarrow> error + ManifestLoader" where
  "init_loader env flags_partial_parse version root_project all_projects fs =
     (case build_manifest_state_check env root_project all_projects of
        Inl e \<Rightarrow> Inl e
      | Inr check \<Rightarrow>
          (let m = \<lparr>dbt_version = Attr version, state_check = Attr (Some check),
                    files = Map.empty, nodes = Map.empty, exposures = Map.empty\<rparr>
           in (case read_saved_manifest flags_partial_parse version root_project m fs of
                 Inl e \<Rightarrow> Inl e
               | Inr old \<Rightarrow>
                   Inr \<lparr>manifest = m, old_manifest = old, loaded_file_cache = Map.empty,
                        load_file_calls = [], parse_file_calls = []\<rparr>)))"

text \<open>
  The result is the returned manifest and the file system after the call. The adapter
  reset, the performance counters and the tracking call are not modelled.
\<close>

definition get_full_manifest ::
  "Collaborators \<Rightarrow> bool option \<Rightarrow> string \<Rightarrow> RuntimeConfig \<Rightarrow> FileSystem
     \<Rightarrow> error + (Manifest \<times> FileSystem)" where
  "get_full_manifest env flags_partial_parse version config fs =
     (case load_dependencies env config of
        Inl e \<Rightarrow> Inl e
      | Inr projects \<Rightarrow>
     (case init_loader env flags_partial_parse version config projects fs of
        Inl e \<Rightarrow> Inl e
      | Inr loader0 \<Rightarrow>
     (case load_macros_from_adapter env loader0 of
        Inl e \<Rightarrow> Inl e
      | Inr loader1 \<Rightarrow>
     (let loader2 = load loader1 projects in
     (case write_manifest_for_partial_parse loader2 config fs of
        Inl e \<Rightarrow> Inl e
      | Inr fs' \<Rightarrow>
     (case update_manifest env loader2 of
        Inl e \<Rightarrow> Inl e
      | Inr m \<Rightarrow>
     (case check_manifest env m config of
        Inl e \<Rightarrow> Inl e
      | Inr u \<Rightarrow> Inr (build_flat_graph env m, fs'))))))))"

section \<open>Reference resolution\<close>

text \<open>
  \<^verbatim>\<open>Manifest.resolve_ref\<close> and \<^verbatim>\<open>Manifest.resolve_source\<close> return
  \<^verbatim>\<open>None\<close>, a \<^verbatim>\<open>Disabled\<close> marker or the target; of the target only its
  unique id is used. Both are parameters of the passes: \<open>resolve_ref manifest
  target_model_name target_model_package current_project package_name\<close>.
\<close>

datatype target = NotFound | DisabledTarget | Found UniqueId

type_synonym ref_resolver =
  "Manifest \<Rightarrow> string \<Rightarrow> string option \<Rightarrow> string \<Rightarrow> string \<Rightarrow> target"

type_synonym source_resolver =
  "Manifest \<Rightarrow> string \<Rightarrow> string \<Rightarrow> string \<Rightarrow> string \<Rightarrow> target"

definition is_disabled :: "target \<Rightarrow> bool" where
  "is_disabled t = (case t of DisabledTarget \<Rightarrow> True | _ \<Rightarrow> False)"

text \<open>
  Modelled from the spec: \<^verbatim>\<open>warn_or_error\<close> is not in the sources at hand. An
  unresolved reference of a validation check is a non-fatal warning.
\<close>

definition warn_or_error :: "msg \<Rightarrow> event list \<Rightarrow> error + event list" where
  "warn_or_error m log = Inr (log @ [Warning m])"

text \<open>
  Modelled from the spec: \<^verbatim>\<open>ref_target_not_found\<close> and
  \<^verbatim>\<open>source_target_not_found\<close> are not in the sources at hand. They raise the
  fatal resolution error, which names the resource, the requested target and whether the
  match was disabled.
\<close>

definition ref_target_not_found ::
  "UniqueId \<Rightarrow> string \<Rightarrow> string option \<Rightarrow> bool \<Rightarrow> error + event list" where
  "ref_target_not_found node_id target_model_name target_model_package disabled =
     Inl (CompilationException
            (TargetNotFoundOrDisabledMsg node_id target_model_name target_model_package disabled))"

definition source_target_not_found ::
  "UniqueId \<Rightarrow> string \<Rightarrow> string \<Rightarrow> bool \<Rightarrow> error + event list" where
  "source_target_not_found node_id target_name target_table_name disabled =
     Inl (CompilationException
            (SourceNotFoundOrDisabledMsg node_id target_name target_table_name disabled))"

text \<open>
  The mentioning resource is passed as its unique id and its resource type
  (an exposure's resource type is \<open>Exposure\<close>).
\<close>

definition invalid_ref_fail_unless_test ::
  "UniqueId \<Rightarrow> NodeType \<Rightarrow> string \<Rightarrow> string option \<Rightarrow> bool \<Rightarrow> event list
     \<Rightarrow> error + event list" where
  "invalid_ref_fail_unless_test node_id node_type target_model_name target_model_package
       disabled log =
     (if node_type = Test
      then (let m = TargetNotFoundOrDisabledMsg node_id target_model_name
                      target_model_package disabled
            in if disabled then Inr (log @ [Debug m]) else warn_or_error m log)
      else ref_target_not_found node_id target_model_name target_model_package disabled)"

definition invalid_source_fail_unless_test ::
  "UniqueId \<Rightarrow> NodeType \<Rightarrow> string \<Rightarrow> string \<Rightarrow> bool \<Rightarrow> event list
     \<Rightarrow> error + event list" where
  "invalid_source_fail_unless_test node_id node_type target_name target_table_name
       disabled log =
     (if node_type = Test
      then (let m = SourceNotFoundOrDisabledMsg node_id target_name target_table_name disabled
            in if disabled then Inr (log @ [Debug m]) else warn_or_error m log)
      else source_target_not_found node_id target_name target_table_name disabled)"

text \<open>
  The node handed to a pass is mutated in place; the pass returns it beside the
  manifest. \<^verbatim>\<open>manifest.update_node(node)\<close>, called on the resolved path only,
  stores the node under its unique id. On the unresolved path the pass does not write to
  the manifest.
\<close>

definition update_node :: "Manifest \<Rightarrow> ParsedNode \<Rightarrow> Manifest" where
  "update_node m node = m\<lparr>nodes := (nodes m)(unique_id node \<mapsto> node)\<rparr>"

definition update_exposure :: "Manifest \<Rightarrow> ParsedExposure \<Rightarrow> Manifest" where
  "update_exposure m exposure =
     m\<lparr>exposures := (exposures m)(exposure_unique_id exposure \<mapsto> exposure)\<rparr>"

text \<open>
  The arity check at the head of both ref loops: the target name and the optional
  package, or the internal error.
\<close>

definition ref_parts :: "string list \<Rightarrow> error + (string \<times> string option)" where
  "ref_parts ref =
     (if length ref = 1 then Inr (ref ! 0, None)
      else if length ref = 2 then Inr (ref ! 1, Some (ref ! 0))
      else Inl (InternalException (RefArityMsg (length ref))))"

type_synonym node_state = "Manifest \<times> ParsedNode \<times> event list"

type_synonym exposure_state = "Manifest \<times> ParsedExposure \<times> event list"

text \<open>One iteration of the loop of \<^verbatim>\<open>_process_refs_for_node\<close>.\<close>

definition process_ref_for_node ::
  "ref_resolver \<Rightarrow> string \<Rightarrow> string list \<Rightarrow> node_state \<Rightarrow> error + node_state" where
  "process_ref_for_node resolve_ref current_project ref st =
     (case st of (m, node, log) \<Rightarrow>
        (case ref_parts ref of
           Inl e \<Rightarrow> Inl e
         | Inr (target_model_name, target_model_package) \<Rightarrow>
             (case resolve_ref m target_model_name target_model_package current_project
                     (package_name node) of
                Found target_model_id \<Rightarrow>
                  (let node' = node\<lparr>depends_on_nodes := depends_on_nodes node @ [target_model_id]\<rparr>
                   in Inr (update_node m node', node', log))
              | target_model \<Rightarrow>
                  (let node' = node\<lparr>config_enabled := False\<rparr>
                   in (case invalid_ref_fail_unless_test (unique_id node') (resource_type node')
                              target_model_name target_model_package
                              (is_disabled target_model) log of
                         Inl e \<Rightarrow> Inl e
                       | Inr log' \<Rightarrow> Inr (m, node', log'))))))"

fun process_refs_for_node_loop ::
  "ref_resolver \<Rightarrow> string \<Rightarrow> string list list \<Rightarrow> node_state \<Rightarrow> error + node_state" where
  "process_refs_for_node_loop resolve_ref current_project [] st = Inr st"
| "process_refs_for_node_loop resolve_ref current_project (ref # rest) st =
     (case process_ref_for_node resolve_ref current_project ref st of
        Inl e \<Rightarrow> Inl e
      | Inr st' \<Rightarrow> process_refs_for_node_loop resolve_ref current_project rest st')"

definition process_refs_for_node ::
  "ref_resolver \<Rightarrow> Manifest \<Rightarrow> string \<Rightarrow> ParsedNode \<Rightarrow> event list \<Rightarrow> error + node_state" where
  "process_refs_for_node resolve_ref m current_project node log =
     process_refs_for_node_loop resolve_ref current_project (refs node) (m, node, log)"

text \<open>One iteration of the loop of \<^verbatim>\<open>_process_refs_for_exposure\<close>.\<close>

definition process_ref_for_exposure ::
  "ref_resolver \<Rightarrow> string \<Rightarrow> string list \<Rightarrow> exposure_state \<Rightarrow> error + exposure_state" where
  "process_ref_for_exposure resolve_ref current_project ref st =
     (case st of (m, exposure, log) \<Rightarrow>
        (case ref_parts ref of
           Inl e \<Rightarrow> Inl e
         | Inr (target_model_name, target_model_package) \<Rightarrow>
             (case resolve_ref m target_model_name target_model_package current_project
                     (exposure_package_name exposure) of
                Found target_model_id \<Rightarrow>
                  (let exposure' = exposure\<lparr>exposure_depends_on_nodes :=
                                     exposure_depends_on_nodes exposure @ [target_model_id]\<rparr>
                   in Inr (update_exposure m exposure', exposure', log))
              | target_model \<Rightarrow>
                  (case invalid_ref_fail_unless_test (exposure_unique_id exposure) Exposure
                          target_model_name target_model_package
                          (is_disabled target_model) log of
                     Inl e \<Rightarrow> Inl e
                   | Inr log' \<Rightarrow> Inr (m, exposure, log')))))"

fun process_refs_for_exposure_loop ::
  "ref_resolver \<Rightarrow> string \<Rightarrow> string list list \<Rightarrow> exposure_state \<Rightarrow> error + exposure_state" where
  "process_refs_for_exposure_loop resolve_ref current_project [] st = Inr st"
| "process_refs_for_exposure_loop resolve_ref current_project (ref # rest) st =
     (case process_ref_for_exposure resolve_ref current_project ref st of
        Inl e \<Rightarrow> Inl e
      | Inr st' \<Rightarrow> process_refs_for_exposure_loop resolve_ref current_project rest st')"

definition process_refs_for_exposure ::
  "ref_resolver \<Rightarrow> Manifest \<Rightarrow> string \<Rightarrow> ParsedExposure \<Rightarrow> event list
     \<Rightarrow> error + exposure_state" where
  "process_refs_for_exposure resolve_ref m current_project exposure log =
     process_refs_for_exposure_loop resolve_ref current_project (exposure_refs exposure)
       (m, exposure, log)"

text \<open>One iteration of the loop of \<^verbatim>\<open>_process_sources_for_node\<close>.\<close>

definition process_source_for_node ::
  "source_resolver \<Rightarrow> string \<Rightarrow> string \<times> string \<Rightarrow> node_state \<Rightarrow> error + node_state" where
  "process_source_for_node resolve_source current_project mention st =
     (case st of (m, node, log) \<Rightarrow>
        (case mention of (source_name, table_name) \<Rightarrow>
           (case resolve_source m source_name table_name current_project (package_name node) of
              Found target_source_id \<Rightarrow>
                (let node' = node\<lparr>depends_on_nodes := depends_on_nodes node @ [target_source_id]\<rparr>
                 in Inr (update_node m node', node', log))
            | target_source \<Rightarrow>
                (let node' = node\<lparr>config_enabled := False\<rparr>
                 in (case invalid_source_fail_unless_test (unique_id node') (resource_type node')
                            source_name table_name (is_disabled target_source) log of
                       Inl e \<Rightarrow> Inl e
                     | Inr log' \<Rightarrow> Inr (m, node', log'))))))"

fun process_sources_for_node_loop ::
  "source_resolver \<Rightarrow> string \<Rightarrow> (string \<times> string) list \<Rightarrow> node_state \<Rightarrow> error + node_state" where
  "process_sources_for_node_loop resolve_source current_project [] st = Inr st"
| "process_sources_for_node_loop resolve_source current_project (mention # rest) st =
     (case process_source_for_node resolve_source current_project mention st of
        Inl e \<Rightarrow> Inl e
      | Inr st' \<Rightarrow> process_sources_for_node_loop resolve_source current_project rest st')"

definition process_sources_for_node ::
  "source_resolver \<Rightarrow> Manifest \<Rightarrow> string \<Rightarrow> ParsedNode \<Rightarrow> event list \<Rightarrow> error + node_state" where
  "process_sources_for_node resolve_source m current_project node log =
     process_sources_for_node_loop resolve_source current_project (sources node) (m, node, log)"

text \<open>One iteration of the loop of \<^verbatim>\<open>_process_sources_for_exposure\<close>.\<close>

definition process_source_for_exposure ::
  "source_resolver \<Rightarrow> string \<Rightarrow> string \<times> string \<Rightarrow> exposure_state
     \<Rightarrow> error + exposure_state" where
  "process_source_for_exposure resolve_source current_project mention st =
     (case st of (m, exposure, log) \<Rightarrow>
        (case mention of (source_name, table_name) \<Rightarrow>
           (case resolve_source m source_name table_name current_project
                   (exposure_package_name exposure) of
              Found target_source_id \<Rightarrow>
                (let exposure' = exposure\<lparr>exposure_depends_on_nodes :=
                                   exposure_depends_on_nodes exposure @ [target_source_id]\<rparr>
                 in Inr (update_exposure m exposure', exposure', log))
            | target_source \<Rightarrow>
                (case invalid_source_fail_unless_test (exposure_unique_id exposure) Exposure
                        source_name table_name (is_disabled target_source) log of
                   Inl e \<Rightarrow> Inl e
                 | Inr log' \<Rightarrow> Inr (m, exposure, log')))))"

fun process_sources_for_exposure_loop ::
  "source_resolver \<Rightarrow> string \<Rightarrow> (string \<times> string) list \<Rightarrow> exposure_state
     \<Rightarrow> error + exposure_state" where
  "process_sources_for_exposure_loop resolve_source current_project [] st = Inr st"
| "process_sources_for_exposure_loop resolve_source current_project (mention # rest) st =
     (case process_source_for_exposure resolve_source current_project mention st of
        Inl e \<Rightarrow> Inl e
      | Inr st' \<Rightarrow> process_sources_for_exposure_loop resolve_source current_project rest st')"

definition process_sources_for_exposure ::
  "source_resolver \<Rightarrow> Manifest \<Rightarrow> string \<Rightarrow> ParsedExposure \<Rightarrow> event list
     \<Rightarrow> error + exposure_state" where
  "process_sources_for_exposure resolve_source m current_project exposure log =
     process_sources_for_exposure_loop resolve_source current_project
       (exposure_sources exposure) (m, exposure, log)"

section \<open>Test selection: \<^verbatim>\<open>TestSelector\<close>\<close>

text \<open>The dependency graph: an edge \<open>(u, v)\<close> makes \<open>v\<close> a direct successor of \<open>u\<close>.\<close>

type_synonym Graph = "(UniqueId \<times> UniqueId) list"

text \<open>
  Modelled from the spec: \<^verbatim>\<open>Graph.select_successors\<close> is not in the sources at
  hand. It scans every direct successor edge from the selected set; the result is
  listed in the order in which it is iterated.
\<close>

definition select_successors :: "Graph \<Rightarrow> UniqueId set \<Rightarrow> UniqueId list" where
  "select_successors graph selected = [v. (u, v) \<leftarrow> graph, u \<in> selected]"

definition add_if_test :: "Manifest \<Rightarrow> UniqueId \<Rightarrow> UniqueId set \<Rightarrow> UniqueId set" where
  "add_if_test m uid selected_tests =
     (case nodes m uid of
        Some node \<Rightarrow>
          if resource_type node = Test then insert uid selected_tests else selected_tests
      | None \<Rightarrow> selected_tests)"

definition expand_selection ::
  "Graph \<Rightarrow> Manifest \<Rightarrow> UniqueId set \<Rightarrow> bool \<Rightarrow> UniqueId set \<times> UniqueId set" where
  "expand_selection graph m selected greedy =
     (let selected_tests = fold (add_if_test m) (select_successors graph selected) {};
          results = (if greedy then selected \<union> selected_tests else selected)
      in (results, selected_tests))"

text \<open>
  \<^verbatim>\<open>incorporate_greedy_nodes\<close> adds to \<^verbatim>\<open>selected\<close> while it iterates over
  \<^verbatim>\<open>greedy_nodes\<close>, so a candidate examined later sees the ones added before it:
  the pool is the list of its elements in iteration order.
\<close>

definition add_if_satisfied :: "Manifest \<Rightarrow> UniqueId \<Rightarrow> UniqueId set \<Rightarrow> UniqueId set" where
  "add_if_satisfied m uid selected =
     (case nodes m uid of
        Some node \<Rightarrow>
          if set (depends_on_nodes node) \<subseteq> selected then insert uid selected else selected
      | None \<Rightarrow> selected)"

definition incorporate_greedy_nodes ::
  "Manifest \<Rightarrow> UniqueId set \<Rightarrow> UniqueId list \<Rightarrow> UniqueId set" where
  "incorporate_greedy_nodes m selected greedy_nodes =
     fold (add_if_satisfied m) greedy_nodes selected"

section \<open>Auxiliary predicates\<close>


text \<open>
  \<open>extends_cache s t\<close>: the loader \<open>t\<close> has made the calls of \<open>s\<close> to
  \<^verbatim>\<open>load_file\<close> and then some more, every cached block of \<open>t\<close> is one of
  \<open>s\<close> or was cached under the search key of one of these further calls, and no
  cached block of \<open>s\<close> was removed or replaced.
\<close>

definition extends_cache :: "ManifestLoader \<Rightarrow> ManifestLoader \<Rightarrow> bool" where
  "extends_cache s t =
     (\<exists>extra. load_file_calls t = load_file_calls s @ extra
        \<and> (\<forall>k block. loaded_file_cache t k = Some block \<longrightarrow>
              loaded_file_cache s k = Some block \<or> (\<exists>p \<in> set extra. search_key p = k))
        \<and> (\<forall>k block. loaded_file_cache s k = Some block \<longrightarrow>
              loaded_file_cache t k = Some block))"

section \<open>Example inputs\<close>

definition example_check :: ManifestStateCheck where
  "example_check =
     \<lparr>vars_hash = ''v1'', profile_hash = ''p1'',
      project_hashes = [(''root'', ''h1''), (''dep'', ''h2'')]\<rparr>"

definition example_old_check :: ManifestStateCheck where
  "example_old_check =
     \<lparr>vars_hash = ''v1'', profile_hash = ''p1'',
      project_hashes = [(''root'', ''h1''), (''dep'', ''h2''), (''gone'', ''h3'')]\<rparr>"

definition example_manifest :: Manifest where
  "example_manifest =
     \<lparr>dbt_version = Attr ''0.20.0'', state_check = Attr (Some example_check),
      files = Map.empty, nodes = Map.empty, exposures = Map.empty\<rparr>"

definition example_saved :: Manifest where
  "example_saved =
     \<lparr>dbt_version = Attr ''0.20.0'', state_check = Attr (Some example_old_check),
      files = Map.empty, nodes = Map.empty, exposures = Map.empty\<rparr>"

definition example_config :: RuntimeConfig where
  "example_config =
     \<lparr>project_name = ''root'', target_path = ''target'', config_partial_parse = Some True\<rparr>"

definition corrupt_fs :: FileSystem where
  "corrupt_fs =
     \<lparr>stored = [''target/partial_parse.pickle'' \<mapsto> Inl (UnpicklingError ''corrupt'')],
      mkdir_error = Map.empty, write_error = Map.empty\<rparr>"

definition example_node :: "UniqueId \<Rightarrow> NodeType \<Rightarrow> UniqueId list \<Rightarrow> ParsedNode" where
  "example_node uid rtype deps =
     \<lparr>unique_id = uid, resource_type = rtype, package_name = ''root'', refs = [],
      sources = [], depends_on_nodes = deps, config_enabled = True\<rparr>"

definition selection_manifest :: Manifest where
  "selection_manifest =
     \<lparr>dbt_version = Attr ''0.20.0'', state_check = Attr None, files = Map.empty,
      nodes = map_of
        [(''model_1'', example_node ''model_1'' Model []),
         (''model_2'', example_node ''model_2'' Model [''model_1'']),
         (''model_3'', example_node ''model_3'' Model [''model_1'', ''model_2'']),
         (''unique_model_1'', example_node ''unique_model_1'' Test [''model_1'']),
         (''rel_1_2'', example_node ''rel_1_2'' Test [''model_1'', ''model_2''])],
      exposures = Map.empty\<rparr>"

definition selection_graph :: Graph where
  "selection_graph =
     [(''model_1'', ''model_2''), (''model_1'', ''model_3''), (''model_2'', ''model_3''),
      (''model_1'', ''unique_model_1''), (''model_1'', ''rel_1_2''),
      (''model_2'', ''rel_1_2''), (''model_1'', ''dashboard'')]"

definition example_resolve_ref :: ref_resolver where
  "example_resolve_ref m target_model_name target_model_package current_project package =
     (if target_model_name = ''off'' then DisabledTarget
      else (case nodes m target_model_name of
              Some node \<Rightarrow> Found (unique_id node)
            | None \<Rightarrow> NotFound))"



definition malformed_test_node :: ParsedNode where
  "malformed_test_node =
     \<lparr>unique_id = ''rel_1_2'', resource_type = Test, package_name = ''root'',
      refs = [[''model_1''], [''a'', ''b'', ''c'']], sources = [],
      depends_on_nodes = [], config_enabled = True\<rparr>"

definition example_load_file :: "FilePath \<Rightarrow> SourceFile" where
  "example_load_file p =
     \<lparr>path = p, checksum = project_root p, contents = project_root p, resource_ids = []\<rparr>"

definition example_parse_file :: "FileBlock \<Rightarrow> Manifest \<Rightarrow> Manifest" where
  "example_parse_file block m =
     m\<lparr>files := (files m)(search_key (path (block_file block)) \<mapsto> block_file block)\<rparr>"

definition example_parser :: "NodeType \<Rightarrow> FilePath list \<Rightarrow> Parser" where
  "example_parser rtype paths =
     \<lparr>parser_resource_type = rtype, search = paths, load_file = example_load_file,
      parse_file = example_parse_file\<rparr>"

definition macro_path_a :: FilePath where
  "macro_path_a = \<lparr>search_key = ''macros/m.sql'', project_root = ''pkg_a''\<rparr>"

definition macro_path_b :: FilePath where
  "macro_path_b = \<lparr>search_key = ''macros/m.sql'', project_root = ''pkg_b''\<rparr>"

definition project_a :: Project where
  "project_a =
     \<lparr>name = ''pkg_a'', parsers = [example_parser Model [macro_path_a]],
      macro_parser = example_parser Macro [macro_path_a]\<rparr>"

definition project_b :: Project where
  "project_b =
     \<lparr>name = ''pkg_b'', parsers = [example_parser Model [macro_path_b]],
      macro_parser = example_parser Macro [macro_path_b]\<rparr>"

definition empty_loader :: ManifestLoader where
  "empty_loader =
     \<lparr>manifest = example_manifest, old_manifest = None, loaded_file_cache = Map.empty,
      load_file_calls = [], parse_file_calls = []\<rparr>"




definition example_env :: Collaborators where
  "example_env =
     \<lparr>load_dependencies = (\<lambda>config. Inr [project_a, project_b]),
      build_manifest_state_check = (\<lambda>config projects. Inr example_check),
      load_macros_from_adapter = (\<lambda>loader. Inr loader),
      update_manifest = (\<lambda>loader. Inr (manifest loader)),
      check_manifest = (\<lambda>m config. Inr ()),
      build_flat_graph = (\<lambda>m. m)\<rparr>"

definition readonly_fs :: FileSystem where
  "readonly_fs =
     \<lparr>stored = Map.empty, mkdir_error = Map.empty,
      write_error = [''target/partial_parse.pickle'' \<mapsto> OSError ''read-only'']\<rparr>"

definition empty_fs :: FileSystem where
  "empty_fs = \<lparr>stored = Map.empty, mkdir_error = Map.empty, write_error = Map.empty\<rparr>"

definition disabled_config :: RuntimeConfig where
  "disabled_config =
     \<lparr>project_name = ''root'', target_path = ''target'', config_partial_parse = None\<rparr>"

definition unresolved_then_malformed_node :: ParsedNode where
  "unresolved_then_malformed_node =
     \<lparr>unique_id = ''model_3'', resource_type = Model, package_name = ''root'',
      refs = [[''missing''], [''a'', ''b'', ''c'']], sources = [],
      depends_on_nodes = [], config_enabled = True\<rparr>"

definition macro_file_a :: FilePath where
  "macro_file_a = \<lparr>search_key = ''/pkg_a/macros/m.sql'', project_root = ''/pkg_a''\<rparr>"

definition macro_file_b :: FilePath where
  "macro_file_b = \<lparr>search_key = ''/pkg_b/macros/m.sql'', project_root = ''/pkg_b''\<rparr>"

definition model_file_a :: FilePath where
  "model_file_a = \<lparr>search_key = ''/pkg_a/models/m.sql'', project_root = ''/pkg_a''\<rparr>"

definition model_file_b :: FilePath where
  "model_file_b = \<lparr>search_key = ''/pkg_b/models/m.sql'', project_root = ''/pkg_b''\<rparr>"

definition package_a :: Project where
  "package_a =
     \<lparr>name = ''pkg_a'', parsers = [example_parser Model [model_file_a]],
      macro_parser = example_parser Macro [macro_file_a]\<rparr>"

definition package_b :: Project where
  "package_b =
     \<lparr>name = ''pkg_b'', parsers = [example_parser Model [model_file_b]],
      macro_parser = example_parser Macro [macro_file_b]\<rparr>"

section \<open>Cache validity: properties\<close>

lemma check_project_hashes_False [simp]:
  "\<not> check_project_hashes new_hashes old_hashes False"
  by (induction new_hashes) (auto split: option.splits)

lemma check_project_hashes_iff:
  "check_project_hashes new_hashes old_hashes valid \<longleftrightarrow>
     valid \<and> (\<forall>(k, new_value) \<in> set new_hashes.
                 \<forall>old_value. map_of old_hashes k = Some old_value \<longrightarrow> new_value = old_value)"
proof (induction new_hashes arbitrary: valid)
  case Nil
  show ?case by simp
next
  case (Cons item rest)
  obtain key new_value where item: "item = (key, new_value)"
    by (cases item)
  show ?case
  proof (cases "map_of old_hashes key")
    case None
    with Cons item show ?thesis by simp
  next
    case (Some old_value)
    with Cons item show ?thesis by (cases "new_value = old_value") auto
  qed
qed

lemma missing_keys_empty_iff:
  "missing_keys new_hashes old_hashes = [] \<longleftrightarrow>
     (\<forall>k \<in> fst ` set new_hashes. k \<in> fst ` set old_hashes)"
  by (auto simp: missing_keys_def filter_empty_conv map_of_eq_None_iff)

lemma map_of_extra_key:
  "k' \<noteq> k \<Longrightarrow> map_of (old_hashes @ [(k, h)]) k' = map_of old_hashes k'"
  by (simp add: map_add_def split: option.splits)

lemma map_of_extra_key_on:
  assumes "k \<notin> fst ` set new_hashes" and "k' \<in> fst ` set new_hashes"
  shows "map_of (old_hashes @ [(k, h)]) k' = map_of old_hashes k'"
proof -
  from assms have "k' \<noteq> k" by blast
  then show ?thesis by (rule map_of_extra_key)
qed

lemma missing_keys_extra_key:
  assumes "k \<notin> fst ` set new_hashes"
  shows "missing_keys new_hashes (old_hashes @ [(k, h)]) = missing_keys new_hashes old_hashes"
  unfolding missing_keys_def
proof (rule filter_cong [OF refl])
  fix k'
  assume "k' \<in> set (map fst new_hashes)"
  then have mem: "k' \<in> fst ` set new_hashes" by simp
  show "(map_of (old_hashes @ [(k, h)]) k' = None) = (map_of old_hashes k' = None)"
    by (simp only: map_of_extra_key_on [OF assms mem])
qed

lemma check_project_hashes_extra_key:
  assumes "k \<notin> fst ` set new_hashes"
  shows "check_project_hashes new_hashes (old_hashes @ [(k, h)]) valid =
           check_project_hashes new_hashes old_hashes valid"
proof -
  have "(\<forall>old_value. map_of (old_hashes @ [(k, h)]) k' = Some old_value \<longrightarrow> v = old_value)
          = (\<forall>old_value. map_of old_hashes k' = Some old_value \<longrightarrow> v = old_value)"
    if "(k', v) \<in> set new_hashes" for k' v
  proof -
    from that have mem: "k' \<in> fst ` set new_hashes" by force
    show ?thesis by (simp only: map_of_extra_key_on [OF assms mem])
  qed
  then show ?thesis
    unfolding check_project_hashes_iff by blast
qed

lemma matching_parse_results_checked:
  assumes "state_check self_manifest = Attr (Some new_check)"
      and "state_check saved = Attr (Some old_check)"
  shows "matching_parse_results version self_manifest saved =
           Inr (version_matches version saved
                \<and> vars_hash new_check = vars_hash old_check
                \<and> profile_hash new_check = profile_hash old_check
                \<and> missing_keys (project_hashes new_check) (project_hashes old_check) = []
                \<and> check_project_hashes (project_hashes new_check) (project_hashes old_check) True)"
  using assms by (simp add: matching_parse_results_def Let_def)

lemma version_matches_iff: "version_matches version saved \<longleftrightarrow> dbt_version saved = Attr version"
  by (simp add: version_matches_def split: attr.splits)

text \<open>
  Claim C1. When the current and the persisted manifest both carry a state check,
  \<^verbatim>\<open>matching_parse_results\<close> returns true exactly when the persisted version tag
  is present and equal to the tool version, the vars hashes are equal, the profile
  hashes are equal, every package name of the current hash set is in the persisted one,
  and every package hash of the current set equals the persisted hash under the same
  name where there is one. It returns a boolean (it does not raise), and a package name
  \<open>k\<close> that only the persisted set has does not change the result.
\<close>

theorem matching_parse_results_accepts_iff:
  assumes "state_check self_manifest = Attr (Some new_check)"
      and "state_check saved = Attr (Some old_check)"
  shows "(matching_parse_results version self_manifest saved = Inr True \<longleftrightarrow>
            dbt_version saved = Attr version
            \<and> vars_hash new_check = vars_hash old_check
            \<and> profile_hash new_check = profile_hash old_check
            \<and> (\<forall>k \<in> fst ` set (project_hashes new_check). k \<in> fst ` set (project_hashes old_check))
            \<and> (\<forall>(k, new_value) \<in> set (project_hashes new_check).
                 \<forall>old_value. map_of (project_hashes old_check) k = Some old_value
                   \<longrightarrow> new_value = old_value))
         \<and> (matching_parse_results version self_manifest saved = Inr True
              \<or> matching_parse_results version self_manifest saved = Inr False)
         \<and> (k \<notin> fst ` set (project_hashes new_check) \<longrightarrow>
              matching_parse_results version self_manifest
                (saved\<lparr>state_check := Attr (Some (old_check\<lparr>project_hashes :=
                                                   project_hashes old_check @ [(k, h)]\<rparr>))\<rparr>)
                = matching_parse_results version self_manifest saved)"
proof (intro conjI impI)
  show "matching_parse_results version self_manifest saved = Inr True \<longleftrightarrow>
            dbt_version saved = Attr version
            \<and> vars_hash new_check = vars_hash old_check
            \<and> profile_hash new_check = profile_hash old_check
            \<and> (\<forall>k \<in> fst ` set (project_hashes new_check). k \<in> fst ` set (project_hashes old_check))
            \<and> (\<forall>(k, new_value) \<in> set (project_hashes new_check).
                 \<forall>old_value. map_of (project_hashes old_check) k = Some old_value
                   \<longrightarrow> new_value = old_value)"
    unfolding matching_parse_results_checked [OF assms] sum.inject
      version_matches_iff missing_keys_empty_iff check_project_hashes_iff
    by simp
next
  show "matching_parse_results version self_manifest saved = Inr True
          \<or> matching_parse_results version self_manifest saved = Inr False"
    unfolding matching_parse_results_checked [OF assms] by auto
next
  assume fresh: "k \<notin> fst ` set (project_hashes new_check)"
  let ?saved' = "saved\<lparr>state_check := Attr (Some (old_check\<lparr>project_hashes :=
                    project_hashes old_check @ [(k, h)]\<rparr>))\<rparr>"
  have "state_check ?saved' =
          Attr (Some (old_check\<lparr>project_hashes := project_hashes old_check @ [(k, h)]\<rparr>))"
    by simp
  from matching_parse_results_checked [OF assms(1) this, of version]
  show "matching_parse_results version self_manifest ?saved'
          = matching_parse_results version self_manifest saved"
    unfolding matching_parse_results_checked [OF assms]
    by (simp add: missing_keys_extra_key [OF fresh] check_project_hashes_extra_key [OF fresh]
          version_matches_def)
qed

theorem matching_parse_results_accepts_iff_witness:
  "state_check example_manifest = Attr (Some example_check)
   \<and> state_check example_saved = Attr (Some example_old_check)
   \<and> matching_parse_results ''0.20.0'' example_manifest example_saved = Inr True"
proof -
  have new: "state_check example_manifest = Attr (Some example_check)"
    by (simp add: example_manifest_def)
  have old: "state_check example_saved = Attr (Some example_old_check)"
    by (simp add: example_saved_def)
  from matching_parse_results_accepts_iff [OF new old, of "''0.20.0''"]
  have "matching_parse_results ''0.20.0'' example_manifest example_saved = Inr True"
    by (simp add: example_saved_def example_check_def example_old_check_def)
  with new old show ?thesis by simp
qed

section \<open>Reading the persisted manifest: properties\<close>

lemma read_saved_manifest_cases:
  "read_saved_manifest flags_partial_parse version root_project self_manifest fs = Inr None
   \<or> (\<exists>saved. read_saved_manifest flags_partial_parse version root_project self_manifest fs
                = Inr (Some saved))"
  by (simp add: read_saved_manifest_def Let_def split: option.splits sum.splits)

text \<open>
  Claim C8. \<^verbatim>\<open>read_saved_manifest\<close> never raises; when the file is missing, when
  opening or unpickling it raises, or when the compatibility check raises, the result is
  \<^verbatim>\<open>None\<close>, which forces a full parse.
\<close>

theorem read_saved_manifest_never_raises:
  "(\<forall>e. read_saved_manifest flags_partial_parse version root_project self_manifest fs \<noteq> Inl e)
   \<and> ((stored fs (path_join (target_path root_project) PARTIAL_PARSE_FILE_NAME) = None
        \<or> (\<exists>e. stored fs (path_join (target_path root_project) PARTIAL_PARSE_FILE_NAME)
                  = Some (Inl e))
        \<or> (\<exists>saved e. stored fs (path_join (target_path root_project) PARTIAL_PARSE_FILE_NAME)
                        = Some (Inr saved)
                      \<and> matching_parse_results version self_manifest saved = Inl e))
       \<longrightarrow> read_saved_manifest flags_partial_parse version root_project self_manifest fs
             = Inr None)"
proof (intro conjI allI impI)
  fix e
  from read_saved_manifest_cases [of flags_partial_parse version root_project self_manifest fs]
  show "read_saved_manifest flags_partial_parse version root_project self_manifest fs \<noteq> Inl e"
    by auto
next
  assume "stored fs (path_join (target_path root_project) PARTIAL_PARSE_FILE_NAME) = None
        \<or> (\<exists>e. stored fs (path_join (target_path root_project) PARTIAL_PARSE_FILE_NAME)
                  = Some (Inl e))
        \<or> (\<exists>saved e. stored fs (path_join (target_path root_project) PARTIAL_PARSE_FILE_NAME)
                        = Some (Inr saved)
                      \<and> matching_parse_results version self_manifest saved = Inl e)"
  then show "read_saved_manifest flags_partial_parse version root_project self_manifest fs
             = Inr None"
    by (auto simp: read_saved_manifest_def load_and_check_def Let_def)
qed

theorem read_saved_manifest_never_raises_witness:
  "stored corrupt_fs (path_join (target_path example_config) PARTIAL_PARSE_FILE_NAME)
     = Some (Inl (UnpicklingError ''corrupt''))
   \<and> read_saved_manifest None ''0.20.0'' example_config example_manifest corrupt_fs = Inr None"
proof -
  have bad: "stored corrupt_fs (path_join (target_path example_config) PARTIAL_PARSE_FILE_NAME)
     = Some (Inl (UnpicklingError ''corrupt''))"
    by (simp add: corrupt_fs_def example_config_def path_join_def PARTIAL_PARSE_FILE_NAME_def)
  with read_saved_manifest_never_raises
         [of None "''0.20.0''" example_config example_manifest corrupt_fs]
  show ?thesis by blast
qed

section \<open>Test selection: properties\<close>

lemma fold_add_if_test:
  "fold (add_if_test m) uids acc =
     acc \<union> {v \<in> set uids. \<exists>node. nodes m v = Some node \<and> resource_type node = Test}"
proof (induction uids arbitrary: acc)
  case Nil
  show ?case by simp
next
  case (Cons uid uids)
  show ?case
    unfolding fold_simps Cons.IH
    by (auto simp: add_if_test_def split: option.splits)
qed

lemma set_select_successors:
  "set (select_successors graph selected) = {v. \<exists>u \<in> selected. (u, v) \<in> set graph}"
  by (auto simp: select_successors_def)

lemma selected_tests_eq:
  "snd (expand_selection graph m selected greedy) =
     {v. (\<exists>u \<in> selected. (u, v) \<in> set graph)
         \<and> (\<exists>node. nodes m v = Some node \<and> resource_type node = Test)}"
  by (auto simp: expand_selection_def Let_def fold_add_if_test set_select_successors)

lemma expand_selection_fst:
  "fst (expand_selection graph m selected greedy) =
     (if greedy then selected \<union> snd (expand_selection graph m selected greedy) else selected)"
  by (simp add: expand_selection_def Let_def)

text \<open>
  Claim C4. Without \<^verbatim>\<open>greedy\<close> the first component of
  \<^verbatim>\<open>expand_selection\<close> is the selection unchanged; with it, the selection united
  with the second component. The second component is the same for both values of the
  flag: the direct successors of the selection that are test nodes of the manifest.
\<close>

theorem expand_selection_result:
  "fst (expand_selection graph m selected False) = selected
   \<and> fst (expand_selection graph m selected True) =
       selected \<union> {v. (\<exists>u \<in> selected. (u, v) \<in> set graph)
                      \<and> (\<exists>node. nodes m v = Some node \<and> resource_type node = Test)}
   \<and> snd (expand_selection graph m selected False) =
       {v. (\<exists>u \<in> selected. (u, v) \<in> set graph)
           \<and> (\<exists>node. nodes m v = Some node \<and> resource_type node = Test)}
   \<and> snd (expand_selection graph m selected True) =
       {v. (\<exists>u \<in> selected. (u, v) \<in> set graph)
           \<and> (\<exists>node. nodes m v = Some node \<and> resource_type node = Test)}"
  unfolding expand_selection_fst selected_tests_eq by simp

theorem expand_selection_result_witness:
  "expand_selection selection_graph selection_manifest {''model_1''} False
     = ({''model_1''}, {''unique_model_1'', ''rel_1_2''})
   \<and> expand_selection selection_graph selection_manifest {''model_1''} True
     = ({''model_1'', ''unique_model_1'', ''rel_1_2''}, {''unique_model_1'', ''rel_1_2''})"
proof -
  have T: "{v. (\<exists>u \<in> {''model_1''}. (u, v) \<in> set selection_graph)
           \<and> (\<exists>node. nodes selection_manifest v = Some node \<and> resource_type node = Test)}
        = {''unique_model_1'', ''rel_1_2''}"
    by (auto simp: selection_graph_def selection_manifest_def example_node_def)
  from expand_selection_result [of selection_graph selection_manifest "{''model_1''}"]
  show ?thesis
    unfolding T by (auto simp: prod_eq_iff)
qed

lemma incorporate_snoc:
  "incorporate_greedy_nodes m selected (greedy_nodes @ [uid]) =
     add_if_satisfied m uid (incorporate_greedy_nodes m selected greedy_nodes)"
  by (simp add: incorporate_greedy_nodes_def)

lemma mem_add_if_satisfied:
  "u \<in> add_if_satisfied m uid selected \<longleftrightarrow>
     u \<in> selected
     \<or> (u = uid \<and> (\<exists>node. nodes m uid = Some node \<and> set (depends_on_nodes node) \<subseteq> selected))"
  by (auto simp: add_if_satisfied_def split: option.splits)

lemma split_snoc:
  "(\<exists>pre post. xs @ [x] = pre @ u # post \<and> P pre) \<longleftrightarrow>
     (\<exists>pre post. xs = pre @ u # post \<and> P pre) \<or> (u = x \<and> P xs)"
proof
  assume "\<exists>pre post. xs @ [x] = pre @ u # post \<and> P pre"
  then obtain pre post where eq: "xs @ [x] = pre @ u # post" and P: "P pre" by blast
  show "(\<exists>pre post. xs = pre @ u # post \<and> P pre) \<or> (u = x \<and> P xs)"
  proof (cases post rule: rev_cases)
    case Nil
    with eq have "xs = pre" "u = x" by simp_all
    with P show ?thesis by simp
  next
    case (snoc post' y)
    with eq have "xs @ [x] = (pre @ u # post') @ [y]" by simp
    then have "xs = pre @ u # post'" by (simp only: append1_eq_conv)
    with P show ?thesis by blast
  qed
next
  assume "(\<exists>pre post. xs = pre @ u # post \<and> P pre) \<or> (u = x \<and> P xs)"
  then show "\<exists>pre post. xs @ [x] = pre @ u # post \<and> P pre"
  proof
    assume "\<exists>pre post. xs = pre @ u # post \<and> P pre"
    then obtain pre post where "xs = pre @ u # post" "P pre" by blast
    then have "xs @ [x] = pre @ u # (post @ [x])" "P pre" by simp_all
    then show ?thesis by blast
  next
    assume "u = x \<and> P xs"
    then have "xs @ [x] = xs @ u # []" "P xs" by simp_all
    then show ?thesis by blast
  qed
qed

lemma mem_incorporate_iff:
  "u \<in> incorporate_greedy_nodes m selected greedy_nodes \<longleftrightarrow>
     u \<in> selected
     \<or> (\<exists>pre post. greedy_nodes = pre @ u # post
          \<and> (\<exists>node. nodes m u = Some node
                \<and> set (depends_on_nodes node) \<subseteq> incorporate_greedy_nodes m selected pre))"
proof (induction greedy_nodes rule: rev_induct)
  case Nil
  show ?case by (simp add: incorporate_greedy_nodes_def)
next
  case (snoc uid uids)
  show ?case
    unfolding incorporate_snoc mem_add_if_satisfied snoc.IH
      split_snoc [where P = "\<lambda>pre. \<exists>node. nodes m u = Some node
                \<and> set (depends_on_nodes node) \<subseteq> incorporate_greedy_nodes m selected pre"]
    by blast
qed

lemma incorporate_mono_append:
  "incorporate_greedy_nodes m selected pre
     \<subseteq> incorporate_greedy_nodes m selected (pre @ post)"
proof (induction post rule: rev_induct)
  case Nil
  show ?case by simp
next
  case (snoc uid uids)
  have "incorporate_greedy_nodes m selected (pre @ uids)
          \<subseteq> add_if_satisfied m uid (incorporate_greedy_nodes m selected (pre @ uids))"
    by (auto simp: mem_add_if_satisfied)
  with snoc show ?case
    unfolding append_assoc [symmetric] incorporate_snoc by blast
qed

lemma incorporate_superset: "selected \<subseteq> incorporate_greedy_nodes m selected greedy_nodes"
  using incorporate_mono_append [of m selected "[]" greedy_nodes]
  by (simp add: incorporate_greedy_nodes_def)

text \<open>
  Claim C5. \<^verbatim>\<open>incorporate_greedy_nodes\<close> returns the selection enlarged by
  exactly the candidates that are manifest nodes and whose whole dependency set lies in
  the working selection at the moment they are examined, that is the selection built
  from the candidates before them. It is a single pass: candidates examined later do
  not count for an earlier one. A candidate that was added has all its dependencies in
  the returned selection, and the input selection is kept.
\<close>

theorem incorporate_greedy_nodes_single_pass:
  "(u \<in> incorporate_greedy_nodes m selected greedy_nodes \<longleftrightarrow>
      u \<in> selected
      \<or> (\<exists>pre post. greedy_nodes = pre @ u # post
           \<and> (\<exists>node. nodes m u = Some node
                 \<and> set (depends_on_nodes node) \<subseteq> incorporate_greedy_nodes m selected pre)))
   \<and> (u \<in> incorporate_greedy_nodes m selected greedy_nodes \<and> u \<notin> selected \<longrightarrow>
        (\<exists>node. nodes m u = Some node
           \<and> set (depends_on_nodes node) \<subseteq> incorporate_greedy_nodes m selected greedy_nodes))
   \<and> selected \<subseteq> incorporate_greedy_nodes m selected greedy_nodes"
proof (intro conjI impI)
  show "u \<in> incorporate_greedy_nodes m selected greedy_nodes \<longleftrightarrow>
      u \<in> selected
      \<or> (\<exists>pre post. greedy_nodes = pre @ u # post
           \<and> (\<exists>node. nodes m u = Some node
                 \<and> set (depends_on_nodes node) \<subseteq> incorporate_greedy_nodes m selected pre))"
    by (rule mem_incorporate_iff)
next
  assume "u \<in> incorporate_greedy_nodes m selected greedy_nodes \<and> u \<notin> selected"
  then obtain pre post node where split: "greedy_nodes = pre @ u # post"
    and node: "nodes m u = Some node"
    and deps: "set (depends_on_nodes node) \<subseteq> incorporate_greedy_nodes m selected pre"
    unfolding mem_incorporate_iff [of u m selected greedy_nodes] by blast
  from incorporate_mono_append [of m selected pre "u # post"] split
  have "incorporate_greedy_nodes m selected pre
          \<subseteq> incorporate_greedy_nodes m selected greedy_nodes"
    by simp
  with node deps
  show "\<exists>node. nodes m u = Some node
           \<and> set (depends_on_nodes node) \<subseteq> incorporate_greedy_nodes m selected greedy_nodes"
    by blast
next
  show "selected \<subseteq> incorporate_greedy_nodes m selected greedy_nodes"
    by (rule incorporate_superset)
qed

theorem incorporate_greedy_nodes_single_pass_witness:
  "''model_2'' \<in> incorporate_greedy_nodes selection_manifest {''model_1''}
                    [''rel_1_2'', ''model_2'']
   \<and> ''model_2'' \<notin> {''model_1''}
   \<and> (\<exists>node. nodes selection_manifest ''model_2'' = Some node
         \<and> set (depends_on_nodes node)
             \<subseteq> incorporate_greedy_nodes selection_manifest {''model_1''}
                 [''rel_1_2'', ''model_2''])
   \<and> incorporate_greedy_nodes selection_manifest {''model_1''} [''rel_1_2'', ''model_2'']
       = {''model_1'', ''model_2''}
   \<and> incorporate_greedy_nodes selection_manifest {''model_1'', ''model_2''}
       [''rel_1_2'', ''model_2''] = {''model_1'', ''model_2'', ''rel_1_2''}"
proof -
  have one: "incorporate_greedy_nodes selection_manifest {''model_1''}
               [''rel_1_2'', ''model_2''] = {''model_1'', ''model_2''}"
    by (auto simp: incorporate_greedy_nodes_def add_if_satisfied_def selection_manifest_def
          example_node_def)
  have two: "incorporate_greedy_nodes selection_manifest {''model_1'', ''model_2''}
       [''rel_1_2'', ''model_2''] = {''model_1'', ''model_2'', ''rel_1_2''}"
    by (auto simp: incorporate_greedy_nodes_def add_if_satisfied_def selection_manifest_def
          example_node_def)
  have hyp: "''model_2'' \<in> incorporate_greedy_nodes selection_manifest {''model_1''}
                    [''rel_1_2'', ''model_2''] \<and> ''model_2'' \<notin> {''model_1''}"
    unfolding one by simp
  from incorporate_greedy_nodes_single_pass
         [of "''model_2''" selection_manifest "{''model_1''}" "[''rel_1_2'', ''model_2'']"] hyp
  have "\<exists>node. nodes selection_manifest ''model_2'' = Some node
         \<and> set (depends_on_nodes node)
             \<subseteq> incorporate_greedy_nodes selection_manifest {''model_1''}
                 [''rel_1_2'', ''model_2'']"
    by blast
  with hyp one two show ?thesis by blast
qed

text \<open>
  Claim C10. Ids that are not keys of \<^verbatim>\<open>manifest.nodes\<close> are skipped by
  \<^verbatim>\<open>expand_selection\<close> and \<^verbatim>\<open>incorporate_greedy_nodes\<close>: the candidate
  set holds only test nodes of the manifest, what \<^verbatim>\<open>expand_selection\<close> adds to
  the selection are test nodes of the manifest, what \<^verbatim>\<open>incorporate_greedy_nodes\<close>
  adds are nodes of the manifest, and an id outside \<^verbatim>\<open>manifest.nodes\<close> is in a
  result only if it was selected already.
\<close>

theorem non_manifest_ids_skipped:
  "snd (expand_selection graph m selected greedy)
     \<subseteq> {u. \<exists>node. nodes m u = Some node \<and> resource_type node = Test}
   \<and> selected \<subseteq> fst (expand_selection graph m selected greedy)
   \<and> fst (expand_selection graph m selected greedy) - selected
       \<subseteq> {u. \<exists>node. nodes m u = Some node \<and> resource_type node = Test}
   \<and> selected \<subseteq> incorporate_greedy_nodes m selected greedy_nodes
   \<and> incorporate_greedy_nodes m selected greedy_nodes - selected \<subseteq> dom (nodes m)
   \<and> (nodes m u = None \<longrightarrow>
        u \<notin> snd (expand_selection graph m selected greedy)
        \<and> (u \<in> fst (expand_selection graph m selected greedy) \<longleftrightarrow> u \<in> selected)
        \<and> (u \<in> incorporate_greedy_nodes m selected greedy_nodes \<longleftrightarrow> u \<in> selected))"
proof -
  have tests: "snd (expand_selection graph m selected greedy)
     \<subseteq> {u. \<exists>node. nodes m u = Some node \<and> resource_type node = Test}"
    unfolding selected_tests_eq by blast
  have inc: "incorporate_greedy_nodes m selected greedy_nodes - selected \<subseteq> dom (nodes m)"
    using mem_incorporate_iff [of _ m selected greedy_nodes] by blast
  have sup: "selected \<subseteq> incorporate_greedy_nodes m selected greedy_nodes"
    by (rule incorporate_superset)
  have fst_sub: "fst (expand_selection graph m selected greedy) - selected
       \<subseteq> {u. \<exists>node. nodes m u = Some node \<and> resource_type node = Test}"
    using tests unfolding expand_selection_fst by (cases greedy) auto
  have fst_sup: "selected \<subseteq> fst (expand_selection graph m selected greedy)"
    unfolding expand_selection_fst by simp
  have absent: "u \<notin> snd (expand_selection graph m selected greedy)
        \<and> (u \<in> fst (expand_selection graph m selected greedy) \<longleftrightarrow> u \<in> selected)
        \<and> (u \<in> incorporate_greedy_nodes m selected greedy_nodes \<longleftrightarrow> u \<in> selected)"
    if none: "nodes m u = None"
  proof (intro conjI)
    from none tests show a: "u \<notin> snd (expand_selection graph m selected greedy)" by auto
    from a show "u \<in> fst (expand_selection graph m selected greedy) \<longleftrightarrow> u \<in> selected"
      by (cases greedy) (simp_all add: expand_selection_fst)
    from none inc sup
    show "u \<in> incorporate_greedy_nodes m selected greedy_nodes \<longleftrightarrow> u \<in> selected"
      by auto
  qed
  from tests inc sup fst_sub fst_sup absent show ?thesis by blast
qed

theorem non_manifest_ids_skipped_witness:
  "nodes selection_manifest ''dashboard'' = None
   \<and> ''dashboard'' \<notin> snd (expand_selection selection_graph selection_manifest {''model_1''} True)
   \<and> ''dashboard'' \<notin> fst (expand_selection selection_graph selection_manifest {''model_1''} True)
   \<and> ''dashboard'' \<notin> incorporate_greedy_nodes selection_manifest {''model_1''}
                         [''dashboard'', ''unique_model_1'']"
proof -
  have none: "nodes selection_manifest ''dashboard'' = None"
    by (simp add: selection_manifest_def)
  from non_manifest_ids_skipped
         [of selection_graph selection_manifest "{''model_1''}" True
             "[''dashboard'', ''unique_model_1'']" "''dashboard''"] none
  show ?thesis by simp
qed

section \<open>Reference resolution: properties\<close>

lemma process_refs_for_node_loop_append:
  "process_refs_for_node_loop resolve_ref current_project (pre @ post) st =
     (case process_refs_for_node_loop resolve_ref current_project pre st of
        Inl e \<Rightarrow> Inl e
      | Inr st' \<Rightarrow> process_refs_for_node_loop resolve_ref current_project post st')"
  by (induction pre arbitrary: st) (simp_all split: sum.splits)

lemma process_refs_for_exposure_loop_append:
  "process_refs_for_exposure_loop resolve_ref current_project (pre @ post) st =
     (case process_refs_for_exposure_loop resolve_ref current_project pre st of
        Inl e \<Rightarrow> Inl e
      | Inr st' \<Rightarrow> process_refs_for_exposure_loop resolve_ref current_project post st')"
  by (induction pre arbitrary: st) (simp_all split: sum.splits)

lemma ref_parts_bad_arity:
  "length ref \<noteq> 1 \<Longrightarrow> length ref \<noteq> 2 \<Longrightarrow>
     ref_parts ref = Inl (InternalException (RefArityMsg (length ref)))"
  by (simp add: ref_parts_def)

lemma process_ref_for_node_bad_arity:
  assumes "length ref \<noteq> 1" and "length ref \<noteq> 2"
  shows "process_ref_for_node resolve_ref current_project ref st =
           Inl (InternalException (RefArityMsg (length ref)))"
  by (cases st) (simp add: process_ref_for_node_def ref_parts_bad_arity [OF assms])

lemma process_ref_for_exposure_bad_arity:
  assumes "length ref \<noteq> 1" and "length ref \<noteq> 2"
  shows "process_ref_for_exposure resolve_ref current_project ref st =
           Inl (InternalException (RefArityMsg (length ref)))"
  by (cases st) (simp add: process_ref_for_exposure_def ref_parts_bad_arity [OF assms])

text \<open>
  Claim C9 as stated does not hold: a model whose refs are an unresolved mention
  followed by a mention of three arguments raises the resolution error of the first
  mention, not \<^verbatim>\<open>InternalException\<close>.
\<close>

theorem earlier_unresolved_ref_counterexample:
  "process_refs_for_node example_resolve_ref selection_manifest ''root''
     unresolved_then_malformed_node [] =
   Inl (CompilationException (TargetNotFoundOrDisabledMsg ''model_3'' ''missing'' None False))"
  by (simp add: process_refs_for_node_def unresolved_then_malformed_node_def
        process_ref_for_node_def ref_parts_def example_resolve_ref_def selection_manifest_def
        invalid_ref_fail_unless_test_def ref_target_not_found_def is_disabled_def Let_def)

lemma process_refs_for_node_loop_malformed_fails:
  assumes "length ref \<noteq> 1" and "length ref \<noteq> 2" and "ref \<in> set rs"
  shows "\<exists>e. process_refs_for_node_loop resolve_ref current_project rs st = Inl e"
  using assms(3)
proof (induction rs arbitrary: st)
  case Nil
  then show ?case by simp
next
  case (Cons r rs)
  show ?case
  proof (cases "process_ref_for_node resolve_ref current_project r st")
    case (Inl e)
    then show ?thesis by simp
  next
    case (Inr st')
    with Cons.prems process_ref_for_node_bad_arity [OF assms(1,2), of resolve_ref current_project st]
    have "ref \<in> set rs" by auto
    from Cons.IH [OF this, of st'] Inr show ?thesis by simp
  qed
qed

lemma process_refs_for_exposure_loop_malformed_fails:
  assumes "length ref \<noteq> 1" and "length ref \<noteq> 2" and "ref \<in> set rs"
  shows "\<exists>e. process_refs_for_exposure_loop resolve_ref current_project rs st = Inl e"
  using assms(3)
proof (induction rs arbitrary: st)
  case Nil
  then show ?case by simp
next
  case (Cons r rs)
  show ?case
  proof (cases "process_ref_for_exposure resolve_ref current_project r st")
    case (Inl e)
    then show ?thesis by simp
  next
    case (Inr st')
    with Cons.prems
      process_ref_for_exposure_bad_arity [OF assms(1,2), of resolve_ref current_project st]
    have "ref \<in> set rs" by auto
    from Cons.IH [OF this, of st'] Inr show ?thesis by simp
  qed
qed

text \<open>
  Claim C9, amended. A ref mention whose argument list has a length other than 1 or 2
  makes the ref pass raise \<^verbatim>\<open>InternalException\<close> when the loop reaches it, that
  is, when the mentions before it on the same resource were processed without an
  exception, for a node and for an exposure alike and whatever the resource type. When
  an earlier mention raises, its error is the one raised; in either case the pass on a
  resource that carries such a mention raises.
\<close>

theorem malformed_ref_arity_is_internal_error:
  assumes "length ref \<noteq> 1" and "length ref \<noteq> 2"
  shows "(refs node = pre @ ref # rest
          \<and> process_refs_for_node_loop resolve_ref current_project pre (m, node, log) = Inr st
          \<longrightarrow> process_refs_for_node resolve_ref m current_project node log
                = Inl (InternalException (RefArityMsg (length ref))))
       \<and> (exposure_refs exposure = pre @ ref # rest
          \<and> process_refs_for_exposure_loop resolve_ref current_project pre (m, exposure, log)
              = Inr est
          \<longrightarrow> process_refs_for_exposure resolve_ref m current_project exposure log
                = Inl (InternalException (RefArityMsg (length ref))))
       \<and> (ref \<in> set (refs node)
          \<longrightarrow> (\<exists>e. process_refs_for_node resolve_ref m current_project node log = Inl e))
       \<and> (ref \<in> set (exposure_refs exposure)
          \<longrightarrow> (\<exists>e. process_refs_for_exposure resolve_ref m current_project exposure log
                     = Inl e))"
proof (intro conjI impI)
  assume "refs node = pre @ ref # rest
          \<and> process_refs_for_node_loop resolve_ref current_project pre (m, node, log) = Inr st"
  then show "process_refs_for_node resolve_ref m current_project node log
                = Inl (InternalException (RefArityMsg (length ref)))"
    by (simp add: process_refs_for_node_def process_refs_for_node_loop_append
          process_ref_for_node_bad_arity [OF assms])
next
  assume "exposure_refs exposure = pre @ ref # rest
          \<and> process_refs_for_exposure_loop resolve_ref current_project pre (m, exposure, log)
              = Inr est"
  then show "process_refs_for_exposure resolve_ref m current_project exposure log
                = Inl (InternalException (RefArityMsg (length ref)))"
    by (simp add: process_refs_for_exposure_def process_refs_for_exposure_loop_append
          process_ref_for_exposure_bad_arity [OF assms])
next
  assume "ref \<in> set (refs node)"
  from process_refs_for_node_loop_malformed_fails [OF assms this]
  show "\<exists>e. process_refs_for_node resolve_ref m current_project node log = Inl e"
    by (simp add: process_refs_for_node_def)
next
  assume "ref \<in> set (exposure_refs exposure)"
  from process_refs_for_exposure_loop_malformed_fails [OF assms this]
  show "\<exists>e. process_refs_for_exposure resolve_ref m current_project exposure log = Inl e"
    by (simp add: process_refs_for_exposure_def)
qed

theorem malformed_ref_arity_is_internal_error_witness:
  "length [''a'', ''b'', ''c''] \<noteq> 1 \<and> length [''a'', ''b'', ''c''] \<noteq> 2
   \<and> refs malformed_test_node = [[''model_1'']] @ [''a'', ''b'', ''c''] # []
   \<and> process_refs_for_node example_resolve_ref selection_manifest ''root''
        malformed_test_node [] = Inl (InternalException (RefArityMsg 3))"
proof -
  have l1: "length [''a'', ''b'', ''c''] \<noteq> 1" by simp
  have l2: "length [''a'', ''b'', ''c''] \<noteq> 2" by simp
  have split: "refs malformed_test_node = [[''model_1'']] @ [''a'', ''b'', ''c''] # []"
    by (simp add: malformed_test_node_def)
  have pre: "process_refs_for_node_loop example_resolve_ref ''root'' [[''model_1'']]
               (selection_manifest, malformed_test_node, []) =
             Inr (update_node selection_manifest
                    (malformed_test_node\<lparr>depends_on_nodes := [''model_1'']\<rparr>),
                  malformed_test_node\<lparr>depends_on_nodes := [''model_1'']\<rparr>, [])"
    by (simp add: process_ref_for_node_def ref_parts_def example_resolve_ref_def
          selection_manifest_def example_node_def malformed_test_node_def Let_def)
  from malformed_ref_arity_is_internal_error [OF l1 l2, of malformed_test_node "[[''model_1'']]"
         "[]" example_resolve_ref "''root''" selection_manifest "[]"] split pre
  have "process_refs_for_node example_resolve_ref selection_manifest ''root''
        malformed_test_node [] = Inl (InternalException (RefArityMsg 3))"
    by simp
  with l1 l2 split show ?thesis by blast
qed












section \<open>Per-file reuse: properties\<close>





lemma parse_with_cache_unfold:
  assumes "get_file self p parser = (self1, block)"
      and "get_cached self1 block parser = (self2, cached)"
  shows "parse_with_cache self p parser =
           (if \<not> cached
            then self2\<lparr>manifest := parse_file parser block (manifest self2),
                       parse_file_calls := parse_file_calls self2 @ [block]\<rparr>
            else self2)"
  using assms by (simp add: parse_with_cache_def)




lemma get_file_memoized:
  assumes "get_file self p parser = (self1, block)" and "search_key p' = search_key p"
  shows "get_file self1 p' parser' = (self1, block)"
  using assms by (auto simp: get_file_def Let_def split: option.splits)

lemma parse_project_clears_cache:
  "parse_project (self\<lparr>loaded_file_cache := c\<rparr>) project = parse_project self project"
  by (simp add: parse_project_def)

lemma extends_cache_refl: "extends_cache s s"
  by (auto simp: extends_cache_def)

lemma extends_cache_trans:
  assumes "extends_cache s t" and "extends_cache t u"
  shows "extends_cache s u"
proof -
  from assms(1) obtain e1 where
    c1: "load_file_calls t = load_file_calls s @ e1"
    and n1: "\<And>k block. loaded_file_cache t k = Some block \<Longrightarrow>
              loaded_file_cache s k = Some block \<or> (\<exists>p \<in> set e1. search_key p = k)"
    and k1: "\<And>k block. loaded_file_cache s k = Some block \<Longrightarrow>
              loaded_file_cache t k = Some block"
    unfolding extends_cache_def by blast
  from assms(2) obtain e2 where
    c2: "load_file_calls u = load_file_calls t @ e2"
    and n2: "\<And>k block. loaded_file_cache u k = Some block \<Longrightarrow>
              loaded_file_cache t k = Some block \<or> (\<exists>p \<in> set e2. search_key p = k)"
    and k2: "\<And>k block. loaded_file_cache t k = Some block \<Longrightarrow>
              loaded_file_cache u k = Some block"
    unfolding extends_cache_def by blast
  have calls: "load_file_calls u = load_file_calls s @ (e1 @ e2)"
    using c1 c2 by simp
  have new: "loaded_file_cache s k = Some block \<or> (\<exists>p \<in> set (e1 @ e2). search_key p = k)"
    if "loaded_file_cache u k = Some block" for k block
    using n2 [OF that] n1 [of k block] by auto
  have keep: "loaded_file_cache u k = Some block"
    if "loaded_file_cache s k = Some block" for k block
    using k2 [OF k1 [OF that]] .
  from calls new keep show ?thesis
    unfolding extends_cache_def by blast
qed

lemma get_file_extends:
  "get_file self p parser = (self1, block) \<Longrightarrow> extends_cache self self1"
  by (auto simp: get_file_def extends_cache_def Let_def split: option.splits if_splits)

lemma get_cached_cache:
  "get_cached self block parser = (self2, cached) \<Longrightarrow>
     loaded_file_cache self2 = loaded_file_cache self
     \<and> load_file_calls self2 = load_file_calls self"
  by (auto simp: get_cached_def Let_def split: option.splits if_splits prod.splits)

lemma parse_with_cache_extends: "extends_cache self (parse_with_cache self p parser)"
proof -
  obtain self1 block where g: "get_file self p parser = (self1, block)"
    by (cases "get_file self p parser")
  obtain self2 cached where c: "get_cached self1 block parser = (self2, cached)"
    by (cases "get_cached self1 block parser")
  from get_cached_cache [OF c] get_file_extends [OF g]
  have "extends_cache self self2" by (simp add: extends_cache_def)
  then show ?thesis
    unfolding parse_with_cache_unfold [OF g c] by (simp add: extends_cache_def)
qed

lemma parse_paths_extends: "extends_cache self (parse_paths self parser)"
proof -
  have "extends_cache self (fold (\<lambda>p s. parse_with_cache s p parser) ps self)" for ps
  proof (induction ps arbitrary: self)
    case Nil
    show ?case by (simp add: extends_cache_refl)
  next
    case (Cons p ps)
    from extends_cache_trans [OF parse_with_cache_extends Cons.IH]
    show ?case by simp
  qed
  then show ?thesis by (simp add: parse_paths_def)
qed

lemma fold_parse_paths_extends:
  "extends_cache self (fold (\<lambda>parser s. parse_paths s parser) ps self)"
proof (induction ps arbitrary: self)
  case Nil
  show ?case by (simp add: extends_cache_refl)
next
  case (Cons p ps)
  from extends_cache_trans [OF parse_paths_extends Cons.IH]
  show ?case by simp
qed

lemma create_macro_manifest_extends:
  "extends_cache self (create_macro_manifest self all_projects)"
  unfolding create_macro_manifest_def
proof (induction all_projects arbitrary: self)
  case Nil
  show ?case by (simp add: extends_cache_refl)
next
  case (Cons p ps)
  from extends_cache_trans [OF parse_paths_extends Cons.IH]
  show ?case by simp
qed

lemma parse_project_extends:
  "extends_cache (self\<lparr>loaded_file_cache := Map.empty\<rparr>) (parse_project self project)"
  unfolding parse_project_def by (rule fold_parse_paths_extends)

text \<open>
  Claim C7 as stated does not hold: \<^verbatim>\<open>create_macro_manifest\<close> does not clear the
  file cache at the start of a package's pass. With two packages whose files have
  different search keys, the block cached for the first package is in the cache when the
  pass for the second one starts and is still there when it ends; \<^verbatim>\<open>load\<close>, which
  goes through \<^verbatim>\<open>parse_project\<close>, leaves nothing of the first package cached.
\<close>

theorem macro_pass_keeps_cache_counterexample:
  "loaded_file_cache (create_macro_manifest empty_loader [package_a]) ''/pkg_a/macros/m.sql''
     = Some \<lparr>block_file = example_load_file macro_file_a\<rparr>
   \<and> loaded_file_cache (create_macro_manifest empty_loader [package_a, package_b])
       ''/pkg_a/macros/m.sql''
     = Some \<lparr>block_file = example_load_file macro_file_a\<rparr>
   \<and> loaded_file_cache (load empty_loader [package_a, package_b]) ''/pkg_a/models/m.sql''
     = None"
  by (simp add: create_macro_manifest_def load_def parse_project_def parse_paths_def
        parse_with_cache_def get_file_def get_cached_def empty_loader_def package_a_def
        package_b_def example_parser_def macro_file_a_def macro_file_b_def model_file_a_def
        model_file_b_def Let_def)

text \<open>
  Claim C7, amended. A call of \<^verbatim>\<open>_get_file\<close> for a search key that is not
  cached loads the file, caches the block and returns it; every later call for the same
  key returns the cached block and loads nothing. \<^verbatim>\<open>parse_project\<close> clears the
  cache at its start: its result does not depend on what was cached before, and every
  block cached at its end was loaded during the pass, so no block of another package is
  used. \<^verbatim>\<open>create_macro_manifest\<close> does not clear the cache: its pass for a package
  starts from the loader the earlier packages left, and whatever was cached stays
  cached, so a block is shared between packages there exactly when the search keys are
  equal.
\<close>

theorem file_cache_scope:
  "(get_file self p parser = (self1, block) \<and> search_key p' = search_key p \<longrightarrow>
      get_file self1 p' parser' = (self1, block))
   \<and> (loaded_file_cache self (search_key p) = None \<longrightarrow>
        get_file self p parser =
          (self\<lparr>loaded_file_cache :=
                   (loaded_file_cache self)(search_key p \<mapsto> \<lparr>block_file = load_file parser p\<rparr>),
                 load_file_calls := load_file_calls self @ [p]\<rparr>,
           \<lparr>block_file = load_file parser p\<rparr>))
   \<and> parse_project (self\<lparr>loaded_file_cache := c\<rparr>) project = parse_project self project
   \<and> (\<forall>k cached. loaded_file_cache (parse_project self project) k = Some cached \<longrightarrow>
        (\<exists>extra. load_file_calls (parse_project self project) = load_file_calls self @ extra
                 \<and> (\<exists>q \<in> set extra. search_key q = k)))
   \<and> create_macro_manifest self (projects @ [project]) =
       parse_paths (create_macro_manifest self projects) (macro_parser project)
   \<and> (\<forall>k cached. loaded_file_cache self k = Some cached \<longrightarrow>
        loaded_file_cache (create_macro_manifest self projects) k = Some cached)"
proof (intro conjI impI allI)
  assume "get_file self p parser = (self1, block) \<and> search_key p' = search_key p"
  then show "get_file self1 p' parser' = (self1, block)"
    by (auto intro: get_file_memoized)
next
  assume "loaded_file_cache self (search_key p) = None"
  then show "get_file self p parser =
          (self\<lparr>loaded_file_cache :=
                   (loaded_file_cache self)(search_key p \<mapsto> \<lparr>block_file = load_file parser p\<rparr>),
                 load_file_calls := load_file_calls self @ [p]\<rparr>,
           \<lparr>block_file = load_file parser p\<rparr>)"
    by (simp add: get_file_def Let_def)
next
  show "parse_project (self\<lparr>loaded_file_cache := c\<rparr>) project = parse_project self project"
    by (rule parse_project_clears_cache)
next
  fix k cached
  assume "loaded_file_cache (parse_project self project) k = Some cached"
  with parse_project_extends [of self project]
  show "\<exists>extra. load_file_calls (parse_project self project) = load_file_calls self @ extra
                 \<and> (\<exists>q \<in> set extra. search_key q = k)"
    unfolding extends_cache_def by auto
next
  show "create_macro_manifest self (projects @ [project]) =
       parse_paths (create_macro_manifest self projects) (macro_parser project)"
    by (simp add: create_macro_manifest_def)
next
  fix k cached
  assume "loaded_file_cache self k = Some cached"
  with create_macro_manifest_extends [of self projects]
  show "loaded_file_cache (create_macro_manifest self projects) k = Some cached"
    unfolding extends_cache_def by blast
qed

lemma example_get_macro_file:
  "get_file empty_loader macro_file_a (example_parser Macro [macro_file_a]) =
     (empty_loader\<lparr>loaded_file_cache :=
          [''/pkg_a/macros/m.sql'' \<mapsto> \<lparr>block_file = example_load_file macro_file_a\<rparr>],
        load_file_calls := [macro_file_a]\<rparr>,
      \<lparr>block_file = example_load_file macro_file_a\<rparr>)"
  by (simp add: get_file_def empty_loader_def macro_file_a_def example_parser_def Let_def)

theorem file_cache_scope_witness:
  "get_file empty_loader macro_file_a (example_parser Macro [macro_file_a]) =
     (empty_loader\<lparr>loaded_file_cache :=
          [''/pkg_a/macros/m.sql'' \<mapsto> \<lparr>block_file = example_load_file macro_file_a\<rparr>],
        load_file_calls := [macro_file_a]\<rparr>,
      \<lparr>block_file = example_load_file macro_file_a\<rparr>)
   \<and> search_key macro_file_a = search_key macro_file_a
   \<and> get_file
        (empty_loader\<lparr>loaded_file_cache :=
           [''/pkg_a/macros/m.sql'' \<mapsto> \<lparr>block_file = example_load_file macro_file_a\<rparr>],
           load_file_calls := [macro_file_a]\<rparr>)
        macro_file_a (example_parser Model [macro_file_a]) =
       (empty_loader\<lparr>loaded_file_cache :=
          [''/pkg_a/macros/m.sql'' \<mapsto> \<lparr>block_file = example_load_file macro_file_a\<rparr>],
          load_file_calls := [macro_file_a]\<rparr>,
        \<lparr>block_file = example_load_file macro_file_a\<rparr>)"
proof -
  have same: "search_key macro_file_a = search_key macro_file_a" by simp
  from file_cache_scope
         [of empty_loader macro_file_a "example_parser Macro [macro_file_a]" _ _ macro_file_a
             "example_parser Model [macro_file_a]"]
       example_get_macro_file same
  have "get_file
        (empty_loader\<lparr>loaded_file_cache :=
           [''/pkg_a/macros/m.sql'' \<mapsto> \<lparr>block_file = example_load_file macro_file_a\<rparr>],
           load_file_calls := [macro_file_a]\<rparr>)
        macro_file_a (example_parser Model [macro_file_a]) =
       (empty_loader\<lparr>loaded_file_cache :=
          [''/pkg_a/macros/m.sql'' \<mapsto> \<lparr>block_file = example_load_file macro_file_a\<rparr>],
          load_file_calls := [macro_file_a]\<rparr>,
        \<lparr>block_file = example_load_file macro_file_a\<rparr>)"
    by blast
  with example_get_macro_file same show ?thesis by blast
qed

section \<open>Persisting the manifest: properties\<close>

text \<open>
  Claim C6 as stated does not hold: with partial parsing enabled and a cache file that
  cannot be written, \<^verbatim>\<open>get_full_manifest\<close> raises the error of the write and
  returns no manifest.
\<close>

theorem persistence_failure_counterexample:
  "get_full_manifest example_env (Some True) ''0.20.0'' example_config readonly_fs
     = Inl (OSError ''read-only'')"
  by (simp add: get_full_manifest_def example_env_def init_loader_def
        read_saved_manifest_def partial_parse_enabled_def example_config_def readonly_fs_def
        path_join_def PARTIAL_PARSE_FILE_NAME_def write_manifest_for_partial_parse_def Let_def)

text \<open>
  Claim C6, amended. When the steps before it succeed, \<^verbatim>\<open>get_full_manifest\<close>
  writes the manifest as it stands after the parse phase, before
  \<^verbatim>\<open>update_manifest\<close>, to the cache file, whether or not partial parsing is
  enabled; a failure of this step is fatal: \<^verbatim>\<open>get_full_manifest\<close> raises that
  error and returns no manifest. Whenever a manifest is returned the cache file holds
  the parsed manifest.
\<close>

theorem persistence_failure_is_fatal:
  assumes "load_dependencies env config = Inr projects"
      and "init_loader env flags_partial_parse version config projects fs = Inr loader0"
      and "load_macros_from_adapter env loader0 = Inr loader1"
  shows
    "(\<forall>e. write_manifest_for_partial_parse (load loader1 projects) config fs = Inl e \<longrightarrow>
            get_full_manifest env flags_partial_parse version config fs = Inl e)
     \<and> (\<forall>m fs'. get_full_manifest env flags_partial_parse version config fs = Inr (m, fs') \<longrightarrow>
            fs' = fs\<lparr>stored := (stored fs)
                        (path_join (target_path config) PARTIAL_PARSE_FILE_NAME
                           \<mapsto> Inr (manifest (load loader1 projects)))\<rparr>)"
  using assms
  by (auto simp: get_full_manifest_def write_manifest_for_partial_parse_def Let_def
        split: sum.splits option.splits)

theorem persistence_failure_is_fatal_witness:
  "load_dependencies example_env disabled_config = Inr [project_a, project_b]
   \<and> init_loader example_env None ''0.20.0'' disabled_config [project_a, project_b] empty_fs
       = Inr empty_loader
   \<and> load_macros_from_adapter example_env empty_loader = Inr empty_loader
   \<and> \<not> partial_parse_enabled None disabled_config
   \<and> (\<exists>m. get_full_manifest example_env None ''0.20.0'' disabled_config empty_fs =
          Inr (m, empty_fs\<lparr>stored :=
                    [''target/partial_parse.pickle''
                       \<mapsto> Inr (manifest (load empty_loader [project_a, project_b]))]\<rparr>))"
proof -
  have deps: "load_dependencies example_env disabled_config = Inr [project_a, project_b]"
    by (simp add: example_env_def)
  have init: "init_loader example_env None ''0.20.0'' disabled_config [project_a, project_b]
                empty_fs = Inr empty_loader"
    by (simp add: init_loader_def example_env_def read_saved_manifest_def
          partial_parse_enabled_def disabled_config_def DEFAULT_PARTIAL_PARSE_def
          empty_loader_def example_manifest_def)
  have macros: "load_macros_from_adapter example_env empty_loader = Inr empty_loader"
    by (simp add: example_env_def)
  have off: "\<not> partial_parse_enabled None disabled_config"
    by (simp add: partial_parse_enabled_def disabled_config_def DEFAULT_PARTIAL_PARSE_def)
  have ok: "\<exists>m fs'. get_full_manifest example_env None ''0.20.0'' disabled_config empty_fs
              = Inr (m, fs')"
  proof -
    have w: "\<exists>fs'. write_manifest_for_partial_parse (load empty_loader [project_a, project_b])
                   disabled_config empty_fs = Inr fs'"
      by (simp add: write_manifest_for_partial_parse_def empty_fs_def)
    have u: "update_manifest example_env loader = Inr (manifest loader)" for loader
      by (simp add: example_env_def)
    have c: "check_manifest example_env m disabled_config = Inr ()" for m
      by (simp add: example_env_def)
    from w show ?thesis
      unfolding get_full_manifest_def by (auto simp: deps init macros Let_def u c)
  qed
  then obtain m fs' where
    res: "get_full_manifest example_env None ''0.20.0'' disabled_config empty_fs = Inr (m, fs')"
    by blast
  from persistence_failure_is_fatal [OF deps init macros] res
  have "fs' = empty_fs\<lparr>stored := (stored empty_fs)
                (path_join (target_path disabled_config) PARTIAL_PARSE_FILE_NAME
                   \<mapsto> Inr (manifest (load empty_loader [project_a, project_b])))\<rparr>"
    by blast
  then have "fs' = empty_fs\<lparr>stored :=
                    [''target/partial_parse.pickle''
                       \<mapsto> Inr (manifest (load empty_loader [project_a, project_b]))]\<rparr>"
    by (simp add: empty_fs_def disabled_config_def path_join_def PARTIAL_PARSE_FILE_NAME_def)
  with res deps init macros off show ?thesis by blast
qed

end
